theory Spec2Isabelle
  imports Complex_Main "HOL-Library.List_Lexorder" "HOL-Library.Product_Lexorder"
    "HOL-Library.Multiset" "HOL-Library.Log_Nat"
begin

section \<open>Strings, exceptions and the regular-expression fragment\<close>

text \<open>
  A Python \<^verbatim>\<open>str\<close> is a sequence of Unicode code points, so a string is a list of
  natural numbers (the code points). Python compares strings code point by code point, a
  proper prefix being smaller: that is the lexicographic order on lists.

  Exceptions are values: a function that can raise returns \<open>py_error + 'a\<close>, with
  \<open>Inl\<close> for the exception.
\<close>

type_synonym ustr = "nat list"

datatype py_error = ReError | ValueError | ZeroDivisionError | OSError

type_synonym 'a result = "py_error + 'a"

text \<open>
  The three patterns of the two scripts all have the shape \<^verbatim>\<open>[...]+\<close>: one character
  set, repeated at least once. \<open>parse_set\<close> follows the set branch of Python's pattern
  parser on the text after the opening bracket: it reads one character; when a \<^verbatim>\<open>-\<close>
  follows, it reads the upper end of a range, and a range whose upper end is below its
  lower end is the error "bad character range"; a \<^verbatim>\<open>-\<close> right before the closing
  bracket is a literal. Escapes and negation do not occur in the patterns of the source.
  An item is a pair of bounds (a single character \<open>c\<close> is the range from \<open>c\<close> to \<open>c\<close>).
  \<open>91\<close> is \<^verbatim>\<open>[\<close>, \<open>93\<close> is \<^verbatim>\<open>]\<close>, \<open>45\<close> is \<^verbatim>\<open>-\<close>, \<open>43\<close> is \<^verbatim>\<open>+\<close>.
\<close>

fun cons_item :: "nat \<times> nat \<Rightarrow> ((nat \<times> nat) list \<times> ustr) result
    \<Rightarrow> ((nat \<times> nat) list \<times> ustr) result" where
  "cons_item it (Inl e) = Inl e"
| "cons_item it (Inr (items, rest)) = Inr (it # items, rest)"

fun parse_set :: "ustr \<Rightarrow> ((nat \<times> nat) list \<times> ustr) result" where
  "parse_set [] = Inl ReError"
| "parse_set [c] = (if c = 93 then Inr ([], []) else Inl ReError)"
| "parse_set [c, d] =
     (if c = 93 then Inr ([], [d])
      else if d = 45 then Inl ReError
      else cons_item (c, c) (parse_set [d]))"
| "parse_set (c # d # hi # rest) =
     (if c = 93 then Inr ([], d # hi # rest)
      else if d = 45 then
        (if hi = 93 then Inr ([(c, c), (45, 45)], rest)
         else if hi < c then Inl ReError
         else cons_item (c, hi) (parse_set rest))
      else cons_item (c, c) (parse_set (d # hi # rest)))"

definition re_compile :: "ustr \<Rightarrow> (nat \<times> nat) list result" where
  "re_compile pat =
     (case pat of
        [] \<Rightarrow> Inl ReError
      | c # cs \<Rightarrow>
          if c = 91 then
            (case parse_set cs of
               Inl e \<Rightarrow> Inl e
             | Inr (items, rest) \<Rightarrow> if rest = [43] then Inr items else Inl ReError)
          else Inl ReError)"

definition in_set :: "(nat \<times> nat) list \<Rightarrow> nat \<Rightarrow> bool" where
  "in_set items c = list_ex (\<lambda>(lo, hi). lo \<le> c \<and> c \<le> hi) items"

text \<open>
  \<^verbatim>\<open>re.findall\<close> of a repeated character set returns the maximal runs of characters of
  the set, from left to right. \<open>runs\<close> scans the text with the run read so far.
\<close>

fun runs :: "(nat \<Rightarrow> bool) \<Rightarrow> ustr \<Rightarrow> ustr \<Rightarrow> ustr list" where
  "runs P cur [] = (if cur = [] then [] else [cur])"
| "runs P cur (c # cs) =
     (if P c then runs P (cur @ [c]) cs
      else if cur = [] then runs P [] cs
      else cur # runs P [] cs)"

definition re_findall :: "ustr \<Rightarrow> ustr \<Rightarrow> ustr list result" where
  "re_findall pat text =
     (case re_compile pat of
        Inl e \<Rightarrow> Inl e
      | Inr items \<Rightarrow> Inr (runs (in_set items) [] text))"

text \<open>
  \<^verbatim>\<open>bool(re.fullmatch(pat, word))\<close> of a repeated character set: the word is not empty
  and all its characters are in the set.
\<close>

definition re_fullmatch :: "ustr \<Rightarrow> ustr \<Rightarrow> bool result" where
  "re_fullmatch pat word =
     (case re_compile pat of
        Inl e \<Rightarrow> Inl e
      | Inr items \<Rightarrow> Inr (word \<noteq> [] \<and> list_all (in_set items) word))"

text \<open>
  \<^verbatim>\<open>str.lower\<close>, character by character. On the code points below 256 it is exact:
  \<^verbatim>\<open>A-Z\<close> and the capitals from U+00C0 to U+00DE move up by 32, except U+00D7 (the
  multiplication sign), and every other code point stays. The scripts lower only matched
  runs and file suffixes compared with ASCII extensions; code points from 256 on are
  left as they are.
\<close>

definition lower_cp :: "nat \<Rightarrow> nat" where
  "lower_cp c =
     (if (65 \<le> c \<and> c \<le> 90) \<or> (192 \<le> c \<and> c \<le> 222 \<and> c \<noteq> 215) then c + 32 else c)"

definition lower :: "ustr \<Rightarrow> ustr" where
  "lower s = map lower_cp s"

section \<open>The two tokenizers\<close>

text \<open>
  \<^verbatim>\<open>ocr_middle_dutch_false_confidence_list.py\<close>, \<^verbatim>\<open>tokenize\<close>: the pattern is
  \<^verbatim>\<open>[A-Za-z\<close>U+00C0\<^verbatim>\<open>-\<close>U+00FF\<^verbatim>\<open>]+\<close>.
\<close>

definition pattern_fc :: ustr where
  "pattern_fc = [91, 65, 45, 90, 97, 45, 122, 192, 45, 255, 93, 43]"

definition tokenize_fc :: "ustr \<Rightarrow> ustr list result" where
  "tokenize_fc text =
     (case re_findall pattern_fc text of
        Inl e \<Rightarrow> Inl e
      | Inr tokens \<Rightarrow> Inr (map lower tokens))"

text \<open>
  \<^verbatim>\<open>Confidence_Tests/ocr_middle_dutch_lexical_confidence.py\<close>, \<^verbatim>\<open>tokenize\<close>: the file
  holds the same pattern with its two accented letters stored a second time through a
  one-byte encoding, so that the set reads \<^verbatim>\<open>A-Z\<close>, \<^verbatim>\<open>a-z\<close>, U+00C3, the range from
  U+20AC to U+00C3, U+00BF.
\<close>

definition pattern_lc :: ustr where
  "pattern_lc = [91, 65, 45, 90, 97, 45, 122, 195, 8364, 45, 195, 191, 93, 43]"

definition tokenize_lc :: "ustr \<Rightarrow> ustr list result" where
  "tokenize_lc text =
     (case re_findall pattern_lc text of
        Inl e \<Rightarrow> Inl e
      | Inr tokens \<Rightarrow> Inr (map lower tokens))"

text \<open>
  The lowercase letters of Basic Latin and of the Latin-1 Supplement: \<^verbatim>\<open>a-z\<close>, the
  feminine and masculine ordinal indicators, the micro sign, and U+00DF to U+00FF without
  U+00F7 (the division sign).
\<close>

definition lower_alpha :: "nat \<Rightarrow> bool" where
  "lower_alpha c \<longleftrightarrow>
     (97 \<le> c \<and> c \<le> 122) \<or> c = 170 \<or> c = 181 \<or> c = 186 \<or> (223 \<le> c \<and> c \<le> 255 \<and> c \<noteq> 247)"

section \<open>Counters\<close>

text \<open>
  A \<^verbatim>\<open>Counter\<close> is a dictionary from tokens to integers that keeps the order in which
  its keys were first inserted: an association list. \<open>counter_get c w d\<close> is
  \<^verbatim>\<open>c.get(w, d)\<close>; \<open>counter_incr\<close> is one step of \<^verbatim>\<open>Counter.update\<close> on an
  iterable, \<^verbatim>\<open>c[t] = c.get(t, 0) + 1\<close>, a new key going to the end.
\<close>

type_synonym counter = "(ustr \<times> int) list"

definition counter_get :: "counter \<Rightarrow> ustr \<Rightarrow> int \<Rightarrow> int" where
  "counter_get c w d = (case map_of c w of None \<Rightarrow> d | Some v \<Rightarrow> v)"

fun counter_incr :: "ustr \<Rightarrow> counter \<Rightarrow> counter" where
  "counter_incr t [] = [(t, 1)]"
| "counter_incr t ((k, v) # kvs) =
     (if k = t then (k, v + 1) # kvs else (k, v) # counter_incr t kvs)"

definition counter_update :: "counter \<Rightarrow> ustr list \<Rightarrow> counter" where
  "counter_update c tokens = fold counter_incr tokens c"

text \<open>
  The frequency model of the data model: a dictionary (no key twice) in which every token
  that is present has a count of at least one.
\<close>

definition frequency_model :: "counter \<Rightarrow> bool" where
  "frequency_model m \<longleftrightarrow> distinct (map fst m) \<and> list_all (\<lambda>kv. 1 \<le> snd kv) m"

section \<open>Building the reference counts\<close>

text \<open>
  The reference directory is the list of paths that \<^verbatim>\<open>ref_dir.rglob("*")\<close> yields. Of a
  path the builder uses whether it is a file, its suffix, and what
  \<^verbatim>\<open>read_text(encoding="utf-8", errors="ignore")\<close> gives: the text or an exception.
  The allowed extensions are \<^verbatim>\<open>.txt\<close>, \<^verbatim>\<open>.xml\<close>, \<^verbatim>\<open>.vrt\<close>, \<^verbatim>\<open>.csv\<close>, \<^verbatim>\<open>.tsv\<close>.
  The messages printed on the way are left out.

  \<^verbatim>\<open>build_reference_counts\<close> is the same text in both scripts; each calls the
  \<^verbatim>\<open>tokenize\<close> of its own module, which is the parameter \<open>tok\<close> here. A failed read is
  caught (warning, next file); the call of \<^verbatim>\<open>tokenize\<close> stands outside the
  \<^verbatim>\<open>try\<close>, so its exception leaves the builder.
\<close>

record ref_path =
  is_file :: bool
  suffix :: ustr
  read_text :: "ustr result"

definition allowed_exts :: "ustr list" where
  "allowed_exts =
     [[46, 116, 120, 116], [46, 120, 109, 108], [46, 118, 114, 116],
      [46, 99, 115, 118], [46, 116, 115, 118]]"

fun build_loop :: "(ustr \<Rightarrow> ustr list result) \<Rightarrow> ref_path list \<Rightarrow> counter \<Rightarrow> counter result" where
  "build_loop tok [] counts = Inr counts"
| "build_loop tok (path # paths) counts =
     (case read_text path of
        Inl e \<Rightarrow> build_loop tok paths counts
      | Inr text \<Rightarrow>
          (case tok text of
             Inl e \<Rightarrow> Inl e
           | Inr tokens \<Rightarrow> build_loop tok paths (counter_update counts tokens)))"

definition build_reference_counts ::
    "(ustr \<Rightarrow> ustr list result) \<Rightarrow> ref_path list \<Rightarrow> counter result" where
  "build_reference_counts tok ref_dir =
     (let ref_files = filter (\<lambda>p. is_file p \<and> lower (suffix p) \<in> set allowed_exts) ref_dir
      in build_loop tok ref_files [])"

definition build_reference_counts_fc :: "ref_path list \<Rightarrow> counter result" where
  "build_reference_counts_fc = build_reference_counts tokenize_fc"

definition build_reference_counts_lc :: "ref_path list \<Rightarrow> counter result" where
  "build_reference_counts_lc = build_reference_counts tokenize_lc"

text \<open>
  The tokens one path contributes when the tokenizer returns them: none when the path is
  not an allowed file or cannot be read.
\<close>

definition path_tokens :: "ref_path \<Rightarrow> ustr list" where
  "path_tokens p =
     (if is_file p \<and> lower (suffix p) \<in> set allowed_exts then
        (case read_text p of
           Inl e \<Rightarrow> []
         | Inr text \<Rightarrow> (case tokenize_fc text of Inl e \<Rightarrow> [] | Inr tokens \<Rightarrow> tokens))
      else [])"


section \<open>The scorer\<close>

text \<open>
  \<^verbatim>\<open>compute_lexical_confidence\<close>. \<^verbatim>\<open>max\<close> of an empty sequence and
  \<^verbatim>\<open>math.log\<close> of a number that is not positive raise \<^verbatim>\<open>ValueError\<close>; a division by
  zero raises \<^verbatim>\<open>ZeroDivisionError\<close>. The function is embedded twice. Here it is read in
  exact arithmetic: \<open>py_log\<close> and \<open>py_div\<close> are the logarithm and the quotient of real
  numbers, and the score is the value before any rounding. Further down it is read in
  double precision, with the conversion of the integer to a double written out.
\<close>

fun py_max :: "int list \<Rightarrow> int result" where
  "py_max [] = Inl ValueError"
| "py_max (x # xs) = Inr (fold max xs x)"

definition py_log :: "int \<Rightarrow> real result" where
  "py_log x = (if x \<le> 0 then Inl ValueError else Inr (ln (real_of_int x)))"

definition py_div :: "real \<Rightarrow> real \<Rightarrow> real result" where
  "py_div a b = (if b = 0 then Inl ZeroDivisionError else Inr (a / b))"

definition compute_lexical_confidence :: "counter \<Rightarrow> ustr \<Rightarrow> real result" where
  "compute_lexical_confidence ref_counts word =
     (let freq = counter_get ref_counts word 0 in
      if freq = 0 then Inr 0
      else
        (case py_max (map snd ref_counts) of
           Inl e \<Rightarrow> Inl e
         | Inr max_freq \<Rightarrow>
             if max_freq \<le> 0 then Inr 0
             else
               (case py_log (1 + freq) of
                  Inl e \<Rightarrow> Inl e
                | Inr a \<Rightarrow>
                    (case py_log (1 + max_freq) of
                       Inl e \<Rightarrow> Inl e
                     | Inr b \<Rightarrow> py_div a b))))"

text \<open>
  The score as the specification words it, with \<open>f\<close> the count of the token and \<open>M\<close> the
  maximum count of the model.
\<close>

definition max_count :: "counter \<Rightarrow> int" where
  "max_count m = Max (set (map snd m))"

definition spec_score :: "counter \<Rightarrow> ustr \<Rightarrow> real" where
  "spec_score m token =
     (if counter_get m token 0 = 0 then 0
      else if max_count m \<le> 0 then 0
      else ln (1 + real_of_int (counter_get m token 0)) / ln (1 + real_of_int (max_count m)))"

text \<open>
  The scorer in double precision. A finite double is the real number it stands for.

  \<^verbatim>\<open>math.log\<close> of a Python integer first converts the integer to a double. The
  conversion takes the nearest double, a tie going to the even significand: an integer of
  at most 53 bits is kept, a longer one is rounded to a multiple of the power of two that
  leaves 53 bits (\<open>round53\<close>, with \<open>round_half_even g n\<close> the multiple of \<open>g\<close>
  nearest to \<open>n\<close>). When the rounded value is not below \<open>2 ^ 1024\<close> the
  conversion overflows (\<open>None\<close>), and \<^verbatim>\<open>math.log\<close> computes the logarithm from the
  mantissa and the exponent of the integer instead.

  What the C library and the processor compute on doubles is not in the source: \<open>flog\<close>
  is the library's logarithm of a double, \<open>flog_big\<close> is the result of the branch for
  integers beyond the doubles, and \<open>fdiv\<close> is the division of two doubles. They are
  parameters.
\<close>

definition round_half_even :: "int \<Rightarrow> int \<Rightarrow> int" where
  "round_half_even g n =
     (let q = n div g; r = n mod g
      in (if g < 2 * r \<or> (2 * r = g \<and> odd q) then q + 1 else q) * g)"

definition round53 :: "int \<Rightarrow> int" where
  "round53 n =
     (if bitlen n \<le> 53 then n else round_half_even (2 ^ nat (bitlen n - 53)) n)"

definition to_double :: "int \<Rightarrow> int option" where
  "to_double n = (if round53 n < 2 ^ 1024 then Some (round53 n) else None)"

definition math_log :: "(real \<Rightarrow> real) \<Rightarrow> (int \<Rightarrow> real) \<Rightarrow> int \<Rightarrow> real result" where
  "math_log flog flog_big x =
     (if x \<le> 0 then Inl ValueError
      else
        (case to_double x of
           Some d \<Rightarrow> Inr (flog (real_of_int d))
         | None \<Rightarrow> Inr (flog_big x)))"

definition float_div :: "(real \<Rightarrow> real \<Rightarrow> real) \<Rightarrow> real \<Rightarrow> real \<Rightarrow> real result" where
  "float_div fdiv a b = (if b = 0 then Inl ZeroDivisionError else Inr (fdiv a b))"

definition compute_lexical_confidence_double ::
    "(real \<Rightarrow> real) \<Rightarrow> (int \<Rightarrow> real) \<Rightarrow> (real \<Rightarrow> real \<Rightarrow> real) \<Rightarrow> counter \<Rightarrow> ustr \<Rightarrow> real result" where
  "compute_lexical_confidence_double flog flog_big fdiv ref_counts word =
     (let freq = counter_get ref_counts word 0 in
      if freq = 0 then Inr 0
      else
        (case py_max (map snd ref_counts) of
           Inl e \<Rightarrow> Inl e
         | Inr max_freq \<Rightarrow>
             if max_freq \<le> 0 then Inr 0
             else
               (case math_log flog flog_big (1 + freq) of
                  Inl e \<Rightarrow> Inl e
                | Inr a \<Rightarrow>
                    (case math_log flog flog_big (1 + max_freq) of
                       Inl e \<Rightarrow> Inl e
                     | Inr b \<Rightarrow> float_div fdiv a b))))"


section \<open>The false-confidence list\<close>

text \<open>
  \<^verbatim>\<open>is_roman_numeral\<close>: the pattern is \<^verbatim>\<open>[ivxlcdmIVXLCDM]+\<close>.
\<close>

definition pattern_roman :: ustr where
  "pattern_roman =
     [91, 105, 118, 120, 108, 99, 100, 109, 73, 86, 88, 76, 67, 68, 77, 93, 43]"

definition is_roman_numeral :: "ustr \<Rightarrow> bool result" where
  "is_roman_numeral word = re_fullmatch pattern_roman word"

text \<open>
  The exception of the specification: every character of the token is one of
  \<^verbatim>\<open>i v x l c d m\<close>, in either case.
\<close>

definition roman_letter :: "nat \<Rightarrow> bool" where
  "roman_letter c \<longleftrightarrow> lower_cp c \<in> {105, 118, 120, 108, 99, 100, 109}"

definition only_roman_letters :: "ustr \<Rightarrow> bool" where
  "only_roman_letters token = list_all roman_letter token"

text \<open>
  \<^verbatim>\<open>build_false_confidence_list\<close>: the loop of step 3 over
  \<^verbatim>\<open>target_counts.items()\<close>, the sort of step 4, and the whole function from the
  reference directory and the result of reading the target file to the rows it writes.
\<close>

record fc_row =
  word :: ustr
  frequency_in_target :: int

fun select_rows :: "counter \<Rightarrow> (ustr \<times> int) list \<Rightarrow> fc_row list result" where
  "select_rows ref_counts [] = Inr []"
| "select_rows ref_counts ((w, freq_target) # rest) =
     (let freq_ref = counter_get ref_counts w 0 in
      if freq_ref > 0 then select_rows ref_counts rest
      else
        (case is_roman_numeral w of
           Inl e \<Rightarrow> Inl e
         | Inr b \<Rightarrow>
             if b then select_rows ref_counts rest
             else
               (case select_rows ref_counts rest of
                  Inl e \<Rightarrow> Inl e
                | Inr rows \<Rightarrow>
                    Inr (\<lparr>word = w, frequency_in_target = freq_target\<rparr> # rows))))"

definition false_confidence_rows :: "counter \<Rightarrow> counter \<Rightarrow> fc_row list result" where
  "false_confidence_rows ref_counts target_counts =
     (case select_rows ref_counts target_counts of
        Inl e \<Rightarrow> Inl e
      | Inr rows \<Rightarrow> Inr (sort_key (\<lambda>r. (frequency_in_target r, word r)) rows))"

definition build_false_confidence_list :: "ref_path list \<Rightarrow> ustr result \<Rightarrow> fc_row list result" where
  "build_false_confidence_list ref_dir target_file =
     (case build_reference_counts_fc ref_dir of
        Inl e \<Rightarrow> Inl e
      | Inr ref_counts \<Rightarrow>
          (case target_file of
             Inl e \<Rightarrow> Inl e
           | Inr target_text \<Rightarrow>
               (case tokenize_fc target_text of
                  Inl e \<Rightarrow> Inl e
                | Inr target_tokens \<Rightarrow>
                    false_confidence_rows ref_counts (counter_update [] target_tokens))))"

section \<open>The full confidence report\<close>

text \<open>
  \<^verbatim>\<open>build_report\<close>: the rows of step 3, over the items of the target counter sorted by
  \<^verbatim>\<open>(-wf[1], wf[0])\<close>, and the whole function. The row keeps the score as the text that
  the four-decimal formatting makes of it; the formatting is the parameter \<open>fmt\<close>.
\<close>

record report_row = fc_row +
  frequency_in_reference :: int
  in_reference :: bool
  lexical_confidence :: ustr

fun report_loop :: "(real \<Rightarrow> ustr) \<Rightarrow> counter \<Rightarrow> (ustr \<times> int) list \<Rightarrow> report_row list result" where
  "report_loop fmt ref_counts [] = Inr []"
| "report_loop fmt ref_counts ((w, freq_target) # rest) =
     (let freq_ref = counter_get ref_counts w 0;
          in_ref = (freq_ref > 0)
      in
        (case compute_lexical_confidence ref_counts w of
           Inl e \<Rightarrow> Inl e
         | Inr lexical_conf \<Rightarrow>
             (case report_loop fmt ref_counts rest of
                Inl e \<Rightarrow> Inl e
              | Inr rows \<Rightarrow>
                  Inr (\<lparr>word = w, frequency_in_target = freq_target,
                        frequency_in_reference = freq_ref, in_reference = in_ref,
                        lexical_confidence = fmt lexical_conf\<rparr> # rows))))"

definition report_rows :: "(real \<Rightarrow> ustr) \<Rightarrow> counter \<Rightarrow> counter \<Rightarrow> report_row list result" where
  "report_rows fmt ref_counts target_counts =
     report_loop fmt ref_counts (sort_key (\<lambda>wf. (- snd wf, fst wf)) target_counts)"

definition build_report ::
    "(real \<Rightarrow> ustr) \<Rightarrow> ref_path list \<Rightarrow> ustr result \<Rightarrow> report_row list result" where
  "build_report fmt ref_dir target_file =
     (case build_reference_counts_lc ref_dir of
        Inl e \<Rightarrow> Inl e
      | Inr ref_counts \<Rightarrow>
          (case target_file of
             Inl e \<Rightarrow> Inl e
           | Inr target_text \<Rightarrow>
               (case tokenize_lc target_text of
                  Inl e \<Rightarrow> Inl e
                | Inr target_tokens \<Rightarrow>
                    report_rows fmt ref_counts (counter_update [] target_tokens))))"

section \<open>Example inputs\<close>


definition ref_file_bar :: ref_path where
  "ref_file_bar = \<lparr>is_file = True, suffix = [46, 88, 77, 76], read_text = Inr [98, 97, 114]\<rparr>"


text \<open>
  The reference model of the text \<^verbatim>\<open>die die minne\<close>.
\<close>

definition model_die_minne :: counter where
  "model_die_minne = [([100, 105, 101], 2), ([109, 105, 110, 110, 101], 1)]"

text \<open>
  The reference model of the text \<^verbatim>\<open>bar\<close>; the tokens and the text of
  \<^verbatim>\<open>zot foo foo aap bar xvi\<close>; the tokens of \<^verbatim>\<open>foo foo bar xvi iiii xvxv\<close>; the
  tokens of \<^verbatim>\<open>minne vrede die vrede\<close>.
\<close>

definition model_bar :: counter where
  "model_bar = [([98, 97, 114], 1)]"

definition tokens_zot_foo :: "ustr list" where
  "tokens_zot_foo =
     [[122, 111, 116], [102, 111, 111], [102, 111, 111], [97, 97, 112], [98, 97, 114],
      [120, 118, 105]]"

definition text_zot_foo :: ustr where
  "text_zot_foo =
     [122, 111, 116, 32, 102, 111, 111, 32, 102, 111, 111, 32, 97, 97, 112, 32, 98, 97, 114,
      32, 120, 118, 105]"

definition tokens_foo_numerals :: "ustr list" where
  "tokens_foo_numerals =
     [[102, 111, 111], [102, 111, 111], [98, 97, 114], [120, 118, 105],
      [105, 105, 105, 105], [120, 118, 120, 118]]"

definition tokens_die_minne_vrede :: "ustr list" where
  "tokens_die_minne_vrede =
     [[109, 105, 110, 110, 101], [118, 114, 101, 100, 101], [100, 105, 101],
      [118, 114, 101, 100, 101]]"


section \<open>Facts about the tokenizers\<close>

lemma compile_pattern_fc: "re_compile pattern_fc = Inr [(65, 90), (97, 122), (192, 255)]"
  by (simp add: re_compile_def pattern_fc_def)

lemma compile_pattern_lc: "re_compile pattern_lc = Inl ReError"
  by (simp add: re_compile_def pattern_lc_def)

lemma tokenize_fc_eq:
  "tokenize_fc text = Inr (map lower (runs (in_set [(65, 90), (97, 122), (192, 255)]) [] text))"
  by (simp add: tokenize_fc_def re_findall_def compile_pattern_fc)

lemma tokenize_lc_raises: "tokenize_lc text = Inl ReError"
  by (simp add: tokenize_lc_def re_findall_def compile_pattern_lc)

lemma runs_elems:
  "t \<in> set (runs P cur s) \<Longrightarrow> list_all P cur \<Longrightarrow> t \<noteq> [] \<and> list_all P t"
  by (induction P cur s rule: runs.induct) (auto split: if_splits)

lemma tokenize_fc_total: "\<exists>tokens. tokenize_fc s = Inr tokens"
  by (simp add: tokenize_fc_eq)

lemma tokenize_fc_tokens:
  assumes "tokenize_fc s = Inr ts" and "t \<in> set ts"
  shows "t \<noteq> [] \<and> (\<forall>c \<in> set t. lower_alpha c \<or> c = 215 \<or> c = 247)"
proof -
  let ?P = "in_set [(65, 90), (97, 122), (192, 255)]"
  from assms obtain r where r: "r \<in> set (runs ?P [] s)" and t: "t = lower r"
    by (auto simp: tokenize_fc_eq)
  from runs_elems[OF r] have "r \<noteq> []" "list_all ?P r" by simp_all
  moreover have "?P c \<Longrightarrow> lower_alpha (lower_cp c) \<or> lower_cp c = 215 \<or> lower_cp c = 247" for c
    by (auto simp: in_set_def lower_cp_def lower_alpha_def)
  ultimately show ?thesis using t by (auto simp: lower_def list_all_iff)
qed

text \<open>
  Claim C1: the two report scripts share one tokenizer, their \<^verbatim>\<open>tokenize\<close> functions
  return the same tokens on every input. On the text \<^verbatim>\<open>die\<close> the tokenizer of the
  false-confidence script returns the token \<^verbatim>\<open>die\<close>, and the tokenizer of the
  full-confidence script raises the error of the pattern compiler: the character set of
  its pattern holds the range from U+20AC down to U+00C3.
\<close>

theorem tokenize_lc_differs_from_tokenize_fc:
  "tokenize_lc [100, 105, 101] = Inl ReError \<and>
   tokenize_fc [100, 105, 101] = Inr [[100, 105, 101]] \<and>
   tokenize_lc [100, 105, 101] \<noteq> tokenize_fc [100, 105, 101]"
  by (simp add: tokenize_lc_raises tokenize_fc_eq in_set_def lower_def lower_cp_def)

text \<open>
  Claim C4: \<^verbatim>\<open>tokenize\<close> is total in each of the two scripts. The tokenizer of the
  false-confidence script returns a list of tokens on every text; the tokenizer of the
  full-confidence script raises on every text, the empty one included, since its pattern
  does not compile.
\<close>

theorem tokenize_fc_returns_and_tokenize_lc_raises:
  "(\<exists>tokens. tokenize_fc s = Inr tokens) \<and> tokenize_lc s = Inl ReError \<and>
   tokenize_lc [] = Inl ReError"
  by (simp add: tokenize_fc_eq tokenize_lc_def re_findall_def compile_pattern_lc)

text \<open>
  Claim C5: every token is non-empty and made of lowercase letters only. The tokenizer of
  the false-confidence script keeps U+00D7, the multiplication sign, which lies in the
  range from U+00C0 to U+00FF of its pattern and is no letter: the text \<^verbatim>\<open>a\<close>U+00D7\<^verbatim>\<open>b\<close>
  is one token, and in \<^verbatim>\<open>2\<close>U+00D7\<^verbatim>\<open>3\<close> the sign alone is a token.
\<close>

theorem tokenize_fc_keeps_multiplication_sign:
  "tokenize_fc [97, 215, 98] = Inr [[97, 215, 98]] \<and>
   tokenize_fc [50, 215, 51] = Inr [[215]] \<and> \<not> lower_alpha 215"
  by (simp add: tokenize_fc_eq in_set_def lower_def lower_cp_def lower_alpha_def)

section \<open>Facts about counters and the builder\<close>

lemma counter_get_incr:
  "counter_get (counter_incr t c) w 0 = counter_get c w 0 + (if w = t then 1 else 0)"
  by (induction c) (auto simp: counter_get_def)

lemma counter_get_update:
  "counter_get (counter_update c ts) w 0 = counter_get c w 0 + int (count_list ts w)"
  unfolding counter_update_def
  by (induction ts arbitrary: c) (auto simp: counter_get_incr)

lemma map_of_counter_incr:
  "map_of (counter_incr t c) = (map_of c)(t \<mapsto> counter_get c t 0 + 1)"
  by (induction c) (auto simp: counter_get_def fun_eq_iff)

lemma keys_counter_incr: "fst ` set (counter_incr t c) = insert t (fst ` set c)"
  by (simp add: dom_map_of_conv_image_fst [symmetric] map_of_counter_incr)

lemma distinct_counter_incr:
  "distinct (map fst c) \<Longrightarrow> distinct (map fst (counter_incr t c))"
proof (induction c)
  case Nil
  show ?case by simp
next
  case (Cons kv c)
  obtain k v where kv: "kv = (k, v)" by (cases kv)
  from Cons.prems have "k \<notin> fst ` set c" "distinct (map fst c)" by (simp_all add: kv)
  with Cons.IH show ?case
    by (auto simp: kv keys_counter_incr)
qed

lemma positive_counter_incr:
  "list_all (\<lambda>kv. 1 \<le> snd kv) c \<Longrightarrow> list_all (\<lambda>kv. 1 \<le> snd kv) (counter_incr t c)"
  by (induction c) auto

lemma frequency_model_incr: "frequency_model c \<Longrightarrow> frequency_model (counter_incr t c)"
  by (simp add: frequency_model_def distinct_counter_incr positive_counter_incr)

lemma frequency_model_update: "frequency_model c \<Longrightarrow> frequency_model (counter_update c ts)"
  unfolding counter_update_def
  by (induction ts arbitrary: c) (auto simp: frequency_model_incr)

lemma frequency_model_Nil: "frequency_model []"
  by (simp add: frequency_model_def)

lemma keys_counter_update: "fst ` set (counter_update c ts) = fst ` set c \<union> set ts"
  unfolding counter_update_def
  by (induction ts arbitrary: c) (auto simp: keys_counter_incr)



lemma counter_update_append:
  "counter_update c (xs @ ys) = counter_update (counter_update c xs) ys"
  by (simp add: counter_update_def)

lemma build_loop_fc:
  "build_loop tokenize_fc paths c =
     Inr (counter_update c (concat (map (\<lambda>p. case read_text p of Inl e \<Rightarrow> []
        | Inr s \<Rightarrow> (case tokenize_fc s of Inl e \<Rightarrow> [] | Inr tokens \<Rightarrow> tokens)) paths)))"
proof (induction paths arbitrary: c)
  case Nil
  show ?case by (simp add: counter_update_def)
next
  case (Cons p ps)
  show ?case
  proof (cases "read_text p")
    case (Inl e)
    then show ?thesis by (simp add: Cons)
  next
    case (Inr s)
    obtain ts where "tokenize_fc s = Inr ts"
      using tokenize_fc_total by blast
    then show ?thesis using Inr by (simp add: Cons counter_update_append)
  qed
qed

lemma concat_path_tokens:
  "concat (map (\<lambda>p. case read_text p of Inl e \<Rightarrow> []
        | Inr s \<Rightarrow> (case tokenize_fc s of Inl e \<Rightarrow> [] | Inr tokens \<Rightarrow> tokens))
      (filter (\<lambda>p. is_file p \<and> lower (suffix p) \<in> set allowed_exts) ref_dir))
   = concat (map path_tokens ref_dir)"
  by (induction ref_dir) (auto simp: path_tokens_def)

lemma build_reference_counts_fc_eq:
  "build_reference_counts_fc ref_dir = Inr (counter_update [] (concat (map path_tokens ref_dir)))"
  by (simp add: build_reference_counts_fc_def build_reference_counts_def build_loop_fc
      concat_path_tokens)


lemma build_loop_lc:
  "build_loop tokenize_lc paths c =
     (if \<forall>p \<in> set paths. isl (read_text p) then Inr c else Inl ReError)"
  by (induction paths arbitrary: c) (auto simp: tokenize_lc_raises split: sum.splits)


lemma counter_get_Counter:
  "counter_get (counter_update [] ts) w 0 = int (count_list ts w)"
  by (simp add: counter_get_update) (simp add: counter_get_def)


lemma build_reference_counts_lc_eq:
  "build_reference_counts_lc ref_dir =
     (if \<forall>p \<in> set ref_dir. is_file p \<and> lower (suffix p) \<in> set allowed_exts \<longrightarrow> isl (read_text p)
      then Inr [] else Inl ReError)"
  by (auto simp: build_reference_counts_lc_def build_reference_counts_def build_loop_lc)



section \<open>Facts about the scorer\<close>

lemma py_max_eq: "xs \<noteq> [] \<Longrightarrow> py_max xs = Inr (Max (set xs))"
  by (cases xs) (simp_all add: Max.set_eq_fold [symmetric])

lemma counter_get_present:
  "counter_get m w 0 \<noteq> 0 \<Longrightarrow> (w, counter_get m w 0) \<in> set m"
  by (auto simp: counter_get_def split: option.splits dest: map_of_SomeD)

lemma counter_get_le_max_count:
  assumes "counter_get m w 0 \<noteq> 0"
  shows "counter_get m w 0 \<le> max_count m"
proof -
  from counter_get_present [OF assms] have "counter_get m w 0 \<in> set (map snd m)"
    by force
  then show ?thesis
    unfolding max_count_def by (intro Max_ge) simp_all
qed

lemma frequency_model_count_pos:
  assumes "frequency_model m" and "counter_get m w 0 \<noteq> 0"
  shows "1 \<le> counter_get m w 0"
  using counter_get_present [OF assms(2)] assms(1)
  by (auto simp: frequency_model_def list_all_iff)

lemma frequency_model_count_nonneg:
  assumes "frequency_model m"
  shows "0 \<le> counter_get m w 0"
  using frequency_model_count_pos [OF assms, of w] by (cases "counter_get m w 0 = 0") simp_all

lemma score_attested:
  assumes "frequency_model m" and "counter_get m w 0 \<noteq> 0"
  shows "compute_lexical_confidence m w =
      Inr (ln (1 + real_of_int (counter_get m w 0)) / ln (1 + real_of_int (max_count m)))"
    and "1 \<le> max_count m"
proof -
  have f: "1 \<le> counter_get m w 0" by (rule frequency_model_count_pos [OF assms])
  have le: "counter_get m w 0 \<le> max_count m" by (rule counter_get_le_max_count [OF assms(2)])
  from f le show M: "1 \<le> max_count m" by simp
  have ne: "map snd m \<noteq> []" using counter_get_present [OF assms(2)] by auto
  have mx: "py_max (map snd m) = Inr (max_count m)"
    using py_max_eq [OF ne] by (simp add: max_count_def)
  have "ln (1 + real_of_int (max_count m)) \<noteq> 0"
    using M by (simp add: ln_eq_zero_iff)
  with f M mx assms(2) show "compute_lexical_confidence m w =
      Inr (ln (1 + real_of_int (counter_get m w 0)) / ln (1 + real_of_int (max_count m)))"
    by (simp add: compute_lexical_confidence_def py_log_def py_div_def)
qed

lemma score_unattested:
  "counter_get m w 0 = 0 \<Longrightarrow> compute_lexical_confidence m w = Inr 0"
  by (simp add: compute_lexical_confidence_def)

lemma score_refines_spec:
  assumes "frequency_model m"
  shows "compute_lexical_confidence m w = Inr (spec_score m w)"
proof (cases "counter_get m w 0 = 0")
  case True
  then show ?thesis by (simp add: score_unattested spec_score_def)
next
  case False
  from score_attested [OF assms False] show ?thesis
    using False by (simp add: spec_score_def)
qed

lemma spec_score_bounds:
  assumes "frequency_model m"
  shows "0 \<le> spec_score m w" and "spec_score m w \<le> 1"
proof -
  show "0 \<le> spec_score m w"
  proof (cases "counter_get m w 0 = 0")
    case True then show ?thesis by (simp add: spec_score_def)
  next
    case False
    have "1 \<le> counter_get m w 0" by (rule frequency_model_count_pos [OF assms False])
    moreover have "1 \<le> max_count m" by (rule score_attested(2) [OF assms False])
    ultimately show ?thesis by (simp add: spec_score_def)
  qed
  show "spec_score m w \<le> 1"
  proof (cases "counter_get m w 0 = 0")
    case True then show ?thesis by (simp add: spec_score_def)
  next
    case False
    have f: "1 \<le> counter_get m w 0" by (rule frequency_model_count_pos [OF assms False])
    have M: "1 \<le> max_count m" by (rule score_attested(2) [OF assms False])
    have le: "counter_get m w 0 \<le> max_count m" by (rule counter_get_le_max_count [OF False])
    have "ln (1 + real_of_int (counter_get m w 0)) \<le> ln (1 + real_of_int (max_count m))"
      using f le by simp
    moreover have "0 < ln (1 + real_of_int (max_count m))" using M by simp
    ultimately show ?thesis using False M by (simp add: spec_score_def)
  qed
qed

text \<open>
  Claim C2: for every frequency model and every token, the scorer returns 0 when the count
  of the token is 0; otherwise, with \<open>f\<close> the count and \<open>M\<close> the maximum count of the
  model, it returns 0 when \<open>M \<le> 0\<close> and \<open>ln (1 + f) / ln (1 + M)\<close> otherwise (this is
  \<open>spec_score\<close>); the value lies between 0 and 1; and the scorer never raises, the
  empty model included. The score is the real number, not its floating-point rounding.
\<close>

theorem compute_lexical_confidence_spec:
  assumes "frequency_model m"
  shows "compute_lexical_confidence m token = Inr (spec_score m token) \<and>
         0 \<le> spec_score m token \<and> spec_score m token \<le> 1"
  using score_refines_spec [OF assms] spec_score_bounds [OF assms] by simp

theorem compute_lexical_confidence_spec_witness:
  "frequency_model model_die_minne \<and>
   compute_lexical_confidence model_die_minne [109, 105, 110, 110, 101] = Inr (ln 2 / ln 3) \<and>
   compute_lexical_confidence model_die_minne [118, 114, 101, 100, 101] = Inr 0 \<and>
   frequency_model [] \<and> compute_lexical_confidence [] [100, 105, 101] = Inr 0"
proof -
  have h: "frequency_model model_die_minne"
    by (simp add: frequency_model_def model_die_minne_def)
  have e: "frequency_model []" by (simp add: frequency_model_def)
  have "spec_score model_die_minne [109, 105, 110, 110, 101] = ln 2 / ln 3"
    and "spec_score model_die_minne [118, 114, 101, 100, 101] = 0"
    and "spec_score [] [100, 105, 101] = 0"
    by (simp_all add: spec_score_def counter_get_def max_count_def model_die_minne_def)
  with h e compute_lexical_confidence_spec [OF h, of "[109, 105, 110, 110, 101]"]
    compute_lexical_confidence_spec [OF h, of "[118, 114, 101, 100, 101]"]
    compute_lexical_confidence_spec [OF e, of "[100, 105, 101]"]
  show ?thesis by simp
qed

section \<open>Facts about the scorer in double precision\<close>
















lemma to_double_small: "0 \<le> n \<Longrightarrow> n < 2 ^ 53 \<Longrightarrow> to_double n = Some n"
proof -
  assume n: "0 \<le> n" "n < 2 ^ 53"
  then have "bitlen n \<le> 53" by (simp add: bitlen_le_iff_power)
  moreover have "n < 2 ^ 1024" using n(2) by simp
  ultimately show ?thesis by (simp add: to_double_def round53_def)
qed



lemma exact_scorer_is_double_scorer:
  assumes "frequency_model m" and "max_count m < 2 ^ 53 - 1"
  shows "compute_lexical_confidence_double ln (\<lambda>n. ln (real_of_int n)) (/) m w =
         compute_lexical_confidence m w"
proof (cases "counter_get m w 0 = 0")
  case True
  then show ?thesis
    by (simp add: compute_lexical_confidence_double_def compute_lexical_confidence_def)
next
  case False
  have f: "1 \<le> counter_get m w 0" by (rule frequency_model_count_pos [OF assms(1) False])
  have le: "counter_get m w 0 \<le> max_count m" by (rule counter_get_le_max_count [OF False])
  have nonempty: "map snd m \<noteq> []" using counter_get_present [OF False] by auto
  have mx: "py_max (map snd m) = Inr (max_count m)"
    using py_max_eq [OF nonempty] by (simp add: max_count_def)
  have "to_double (1 + counter_get m w 0) = Some (1 + counter_get m w 0)"
    "to_double (1 + max_count m) = Some (1 + max_count m)"
    using f le assms(2) by (simp_all add: to_double_small)
  then show ?thesis
    using f le False
    by (simp add: compute_lexical_confidence_double_def compute_lexical_confidence_def mx
        math_log_def py_log_def float_div_def py_div_def)
qed




section \<open>Facts about the false-confidence list\<close>

lemma compile_pattern_roman:
  "re_compile pattern_roman =
     Inr [(105, 105), (118, 118), (120, 120), (108, 108), (99, 99), (100, 100), (109, 109),
          (73, 73), (86, 86), (88, 88), (76, 76), (67, 67), (68, 68), (77, 77)]"
  by (simp add: re_compile_def pattern_roman_def)

lemma roman_letter_iff:
  "roman_letter c \<longleftrightarrow> c \<in> {105, 118, 120, 108, 99, 100, 109, 73, 86, 88, 76, 67, 68, 77}"
proof (cases "(65 \<le> c \<and> c \<le> 90) \<or> (192 \<le> c \<and> c \<le> 222 \<and> c \<noteq> 215)")
  case True
  then have "lower_cp c = c + 32" by (simp add: lower_cp_def)
  then show ?thesis using True unfolding roman_letter_def by auto
next
  case False
  then have "lower_cp c = c" by (simp add: lower_cp_def)
  then show ?thesis using False unfolding roman_letter_def by auto
qed

lemma in_set_roman:
  "in_set [(105, 105), (118, 118), (120, 120), (108, 108), (99, 99), (100, 100), (109, 109),
          (73, 73), (86, 86), (88, 88), (76, 76), (67, 67), (68, 68), (77, 77)] c = roman_letter c"
proof -
  have eq: "(a \<le> c \<and> c \<le> a) = (c = a)" for a
    by auto
  show ?thesis
    by (simp add: in_set_def roman_letter_iff eq)
qed

lemma is_roman_numeral_eq:
  "is_roman_numeral w = Inr (w \<noteq> [] \<and> only_roman_letters w)"
  by (simp add: is_roman_numeral_def re_fullmatch_def compile_pattern_roman in_set_roman
      only_roman_letters_def list_all_iff)

lemma select_rows_eq:
  "select_rows ref_counts items =
     Inr (map (\<lambda>wf. \<lparr>word = fst wf, frequency_in_target = snd wf\<rparr>)
       (filter (\<lambda>wf. \<not> 0 < counter_get ref_counts (fst wf) 0 \<and>
                     \<not> (fst wf \<noteq> [] \<and> only_roman_letters (fst wf))) items))"
  by (induction ref_counts items rule: select_rows.induct)
     (simp_all add: is_roman_numeral_eq Let_def)

lemma Counter_distinct: "distinct (map fst (counter_update [] ts))"
  using frequency_model_update [OF frequency_model_Nil, of ts] by (simp add: frequency_model_def)

lemma Counter_keys: "fst ` set (counter_update [] ts) = set ts"
  by (simp add: keys_counter_update)

lemma Counter_items:
  assumes "(w, f) \<in> set (counter_update [] ts)"
  shows "f = int (count_list ts w)"
proof -
  have "map_of (counter_update [] ts) w = Some f"
    using assms Counter_distinct by (rule_tac map_of_is_SomeI)
  then have "counter_get (counter_update [] ts) w 0 = f" by (simp add: counter_get_def)
  then show ?thesis by (simp add: counter_get_Counter)
qed

lemma sort_key_strict:
  fixes k :: "'a \<Rightarrow> 'b::linorder"
  assumes "distinct (map g xs)" and "\<And>x y. k x = k y \<Longrightarrow> g x = g y"
  shows "sorted_wrt (\<lambda>x y. k x < k y) (sort_key k xs)"
proof -
  have "mset (map g (sort_key k xs)) = mset (map g xs)" by simp
  then have "distinct (map g (sort_key k xs))"
    using assms(1) by (metis mset_eq_imp_distinct_iff)
  then have d: "distinct (sort_key k xs)" and i: "inj_on g (set (sort_key k xs))"
    by (simp_all only: distinct_map)
  have "inj_on k (set (sort_key k xs))"
  proof (rule inj_onI)
    fix x y
    assume x: "x \<in> set (sort_key k xs)" and y: "y \<in> set (sort_key k xs)" and "k x = k y"
    then have "g x = g y" by (intro assms(2))
    with i x y show "x = y" by (rule_tac inj_onD)
  qed
  with d have "distinct (map k (sort_key k xs))"
    by (simp only: distinct_map simp_thms)
  moreover have "sorted (map k (sort_key k xs))" by (rule sorted_sort_key)
  ultimately have "sorted_wrt (<) (map k (sort_key k xs))"
    by (simp add: strict_sorted_iff)
  then show ?thesis by (simp add: sorted_wrt_map)
qed



lemma false_confidence_rows_eq:
  "false_confidence_rows ref_counts target_counts =
     Inr (sort_key (\<lambda>r. (frequency_in_target r, word r))
       (map (\<lambda>wf. \<lparr>word = fst wf, frequency_in_target = snd wf\<rparr>)
         (filter (\<lambda>wf. \<not> 0 < counter_get ref_counts (fst wf) 0 \<and>
                     \<not> (fst wf \<noteq> [] \<and> only_roman_letters (fst wf))) target_counts)))"
  by (simp add: false_confidence_rows_def select_rows_eq)

lemma false_confidence_rows_sorted:
  assumes "false_confidence_rows ref_counts (counter_update [] target_tokens) = Inr rows"
  shows "sorted_wrt (\<lambda>r s. frequency_in_target r < frequency_in_target s \<or>
            (frequency_in_target r = frequency_in_target s \<and> word r < word s)) rows"
    and "\<forall>r \<in> set rows. frequency_in_target r = int (count_list target_tokens (word r))"
proof -
  let ?sel = "\<lambda>wf. \<not> 0 < counter_get ref_counts (fst wf) 0 \<and>
                     \<not> (fst wf \<noteq> [] \<and> only_roman_letters (fst wf))"
  let ?mk = "\<lambda>wf. \<lparr>word = fst wf, frequency_in_target = snd wf\<rparr>"
  let ?rows0 = "map ?mk (filter ?sel (counter_update [] target_tokens))"
  let ?k = "\<lambda>r::fc_row. (frequency_in_target r, word r)"
  have rows: "rows = sort_key ?k ?rows0"
    using assms by (simp add: false_confidence_rows_eq)
  have "map word ?rows0 = map fst (filter ?sel (counter_update [] target_tokens))"
    by (simp add: comp_def)
  moreover have "distinct (map fst (filter ?sel (counter_update [] target_tokens)))"
    by (rule distinct_map_filter [OF Counter_distinct])
  ultimately have "distinct (map word ?rows0)"
    by (simp only:)
  then have "sorted_wrt (\<lambda>x y. ?k x < ?k y) (sort_key ?k ?rows0)"
    by (rule sort_key_strict) simp
  then show "sorted_wrt (\<lambda>r s. frequency_in_target r < frequency_in_target s \<or>
            (frequency_in_target r = frequency_in_target s \<and> word r < word s)) rows"
    unfolding rows by (rule sorted_wrt_mono_rel [rotated]) auto
  show "\<forall>r \<in> set rows. frequency_in_target r = int (count_list target_tokens (word r))"
  proof
    fix r assume "r \<in> set rows"
    then have "r \<in> set ?rows0" by (simp add: rows)
    then obtain wf where wf: "wf \<in> set (counter_update [] target_tokens)" and r: "r = ?mk wf"
      by auto
    from wf have "snd wf = int (count_list target_tokens (fst wf))"
      by (intro Counter_items) simp
    then show "frequency_in_target r = int (count_list target_tokens (word r))"
      by (simp add: r)
  qed
qed

text \<open>
  Claim C7: the rows of the false-confidence report are in ascending order of the
  frequency in the target document, rows of equal frequency in ascending lexicographic
  order of the token. This holds for the rows made from any reference counter and the
  counter of any list of target tokens, where the frequency of a row is the number of
  occurrences of its token in the target; and it holds for the whole function, which
  returns rows for every reference directory and every target text.
\<close>

theorem false_confidence_rows_ascending:
  "(\<exists>rows. false_confidence_rows ref_counts (counter_update [] target_tokens) = Inr rows \<and>
      sorted_wrt (\<lambda>r s. frequency_in_target r < frequency_in_target s \<or>
            (frequency_in_target r = frequency_in_target s \<and> word r < word s)) rows \<and>
      (\<forall>r \<in> set rows. frequency_in_target r = int (count_list target_tokens (word r)))) \<and>
   (\<exists>rows. build_false_confidence_list ref_dir (Inr target_text) = Inr rows \<and>
      sorted_wrt (\<lambda>r s. frequency_in_target r < frequency_in_target s \<or>
            (frequency_in_target r = frequency_in_target s \<and> word r < word s)) rows)"
proof (rule conjI)
  obtain rows where rows: "false_confidence_rows ref_counts (counter_update [] target_tokens) = Inr rows"
    by (simp add: false_confidence_rows_eq)
  from false_confidence_rows_sorted [OF rows] rows
  show "\<exists>rows. false_confidence_rows ref_counts (counter_update [] target_tokens) = Inr rows \<and>
      sorted_wrt (\<lambda>r s. frequency_in_target r < frequency_in_target s \<or>
            (frequency_in_target r = frequency_in_target s \<and> word r < word s)) rows \<and>
      (\<forall>r \<in> set rows. frequency_in_target r = int (count_list target_tokens (word r)))"
    by blast
next
  obtain m where m: "build_reference_counts_fc ref_dir = Inr m"
    by (simp add: build_reference_counts_fc_eq)
  obtain ts where ts: "tokenize_fc target_text = Inr ts"
    using tokenize_fc_total by blast
  obtain rows where rows: "false_confidence_rows m (counter_update [] ts) = Inr rows"
    by (simp add: false_confidence_rows_eq)
  have "build_false_confidence_list ref_dir (Inr target_text) = Inr rows"
    by (simp add: build_false_confidence_list_def m ts rows)
  with false_confidence_rows_sorted(1) [OF rows]
  show "\<exists>rows. build_false_confidence_list ref_dir (Inr target_text) = Inr rows \<and>
      sorted_wrt (\<lambda>r s. frequency_in_target r < frequency_in_target s \<or>
            (frequency_in_target r = frequency_in_target s \<and> word r < word s)) rows"
    by blast
qed

theorem false_confidence_rows_ascending_witness:
  "false_confidence_rows model_bar (counter_update [] tokens_zot_foo) =
      Inr [\<lparr>word = [97, 97, 112], frequency_in_target = 1\<rparr>,
           \<lparr>word = [122, 111, 116], frequency_in_target = 1\<rparr>,
           \<lparr>word = [102, 111, 111], frequency_in_target = 2\<rparr>] \<and>
   build_false_confidence_list [ref_file_bar] (Inr text_zot_foo) =
      Inr [\<lparr>word = [97, 97, 112], frequency_in_target = 1\<rparr>,
           \<lparr>word = [122, 111, 116], frequency_in_target = 1\<rparr>,
           \<lparr>word = [102, 111, 111], frequency_in_target = 2\<rparr>] \<and>
   sorted_wrt (\<lambda>r s. frequency_in_target r < frequency_in_target s \<or>
            (frequency_in_target r = frequency_in_target s \<and> word r < word s))
      [\<lparr>word = [97, 97, 112], frequency_in_target = 1\<rparr>,
           \<lparr>word = [122, 111, 116], frequency_in_target = 1\<rparr>,
           \<lparr>word = [102, 111, 111], frequency_in_target = 2\<rparr>] \<and>
   map frequency_in_target
      [\<lparr>word = [97, 97, 112], frequency_in_target = 1\<rparr>,
           \<lparr>word = [122, 111, 116], frequency_in_target = 1\<rparr>,
           \<lparr>word = [102, 111, 111], frequency_in_target = 2\<rparr>] =
   map (\<lambda>r. int (count_list tokens_zot_foo (word r)))
      [\<lparr>word = [97, 97, 112], frequency_in_target = 1\<rparr>,
           \<lparr>word = [122, 111, 116], frequency_in_target = 1\<rparr>,
           \<lparr>word = [102, 111, 111], frequency_in_target = 2\<rparr>]"
proof -
  have ev: "false_confidence_rows model_bar (counter_update [] tokens_zot_foo) =
      Inr [\<lparr>word = [97, 97, 112], frequency_in_target = 1\<rparr>,
           \<lparr>word = [122, 111, 116], frequency_in_target = 1\<rparr>,
           \<lparr>word = [102, 111, 111], frequency_in_target = 2\<rparr>]"
    by (simp add: false_confidence_rows_eq model_bar_def tokens_zot_foo_def counter_update_def
        counter_get_def only_roman_letters_def roman_letter_iff)
  have ev': "build_false_confidence_list [ref_file_bar] (Inr text_zot_foo) =
      Inr [\<lparr>word = [97, 97, 112], frequency_in_target = 1\<rparr>,
           \<lparr>word = [122, 111, 116], frequency_in_target = 1\<rparr>,
           \<lparr>word = [102, 111, 111], frequency_in_target = 2\<rparr>]"
    by (simp add: build_false_confidence_list_def build_reference_counts_fc_eq path_tokens_def
        ref_file_bar_def lower_def lower_cp_def allowed_exts_def tokenize_fc_eq in_set_def
        text_zot_foo_def false_confidence_rows_eq counter_update_def
        counter_get_def only_roman_letters_def roman_letter_iff)
  from false_confidence_rows_ascending
    [of model_bar tokens_zot_foo "[ref_file_bar]" text_zot_foo]
  show ?thesis
    unfolding ev ev' by simp
qed

text \<open>
  Claim C3: for every frequency model and every token (a token is not empty), the token
  is selected into the false-confidence rows if and only if its count in the reference
  model is 0 and it does not consist only of the letters \<^verbatim>\<open>i v x l c d m\<close> in either
  case. The numerals need not be well formed: \<^verbatim>\<open>iiii\<close> and \<^verbatim>\<open>xvxv\<close> are left out
  like \<^verbatim>\<open>xvi\<close>.
\<close>

theorem false_confidence_selection:
  assumes "frequency_model ref_counts" and "[] \<notin> set target_tokens"
  shows "\<exists>rows. false_confidence_rows ref_counts (counter_update [] target_tokens) = Inr rows \<and>
      (\<forall>w. w \<in> word ` set rows \<longleftrightarrow>
         w \<in> set target_tokens \<and> counter_get ref_counts w 0 = 0 \<and> \<not> only_roman_letters w)"
proof -
  let ?sel = "\<lambda>wf. \<not> 0 < counter_get ref_counts (fst wf) 0 \<and>
                     \<not> (fst wf \<noteq> [] \<and> only_roman_letters (fst wf))"
  let ?mk = "\<lambda>wf. \<lparr>word = fst wf, frequency_in_target = snd wf\<rparr>"
  let ?items = "counter_update [] target_tokens"
  let ?rows = "sort_key (\<lambda>r::fc_row. (frequency_in_target r, word r)) (map ?mk (filter ?sel ?items))"
  have "word ` set ?rows = fst ` set (filter ?sel ?items)"
    by (simp add: image_image)
  also have "\<dots> = {w \<in> set target_tokens. ?sel (w, 0::int)}"
    using Counter_keys [of target_tokens] by force
  finally have "w \<in> word ` set ?rows \<longleftrightarrow>
         w \<in> set target_tokens \<and> counter_get ref_counts w 0 = 0 \<and> \<not> only_roman_letters w" for w
    using frequency_model_count_nonneg [OF assms(1), of w] assms(2) by auto
  then show ?thesis
    by (simp add: false_confidence_rows_eq)
qed

theorem false_confidence_selection_witness:
  "frequency_model model_bar \<and> [] \<notin> set tokens_foo_numerals \<and>
   false_confidence_rows model_bar (counter_update [] tokens_foo_numerals) =
      Inr [\<lparr>word = [102, 111, 111], frequency_in_target = 2\<rparr>] \<and>
   (\<forall>w. w = [102, 111, 111] \<longleftrightarrow>
      w \<in> set tokens_foo_numerals \<and> counter_get model_bar w 0 = 0 \<and> \<not> only_roman_letters w)"
proof -
  have h1: "frequency_model model_bar"
    by (simp add: frequency_model_def model_bar_def)
  have h2: "[] \<notin> set tokens_foo_numerals"
    by (simp add: tokens_foo_numerals_def)
  have ev: "false_confidence_rows model_bar (counter_update [] tokens_foo_numerals) =
      Inr [\<lparr>word = [102, 111, 111], frequency_in_target = 2\<rparr>]"
    by (simp add: false_confidence_rows_eq model_bar_def tokens_foo_numerals_def
        counter_update_def counter_get_def only_roman_letters_def roman_letter_iff)
  from false_confidence_selection [OF h1 h2]
  have "\<forall>w. w = [102, 111, 111] \<longleftrightarrow>
      w \<in> set tokens_foo_numerals \<and> counter_get model_bar w 0 = 0 \<and> \<not> only_roman_letters w"
    unfolding ev by simp
  with h1 h2 ev show ?thesis by blast
qed

section \<open>Facts about the full confidence report\<close>

lemma spec_score_pos_iff:
  assumes "frequency_model m"
  shows "0 < spec_score m w \<longleftrightarrow> 0 < counter_get m w 0"
proof (cases "counter_get m w 0 = 0")
  case True
  then show ?thesis by (simp add: spec_score_def)
next
  case False
  have f: "1 \<le> counter_get m w 0" by (rule frequency_model_count_pos [OF assms False])
  have M: "1 \<le> max_count m" by (rule score_attested(2) [OF assms False])
  have "0 < ln (1 + real_of_int (counter_get m w 0))" using f by simp
  moreover have "0 < ln (1 + real_of_int (max_count m))" using M by simp
  ultimately have "0 < spec_score m w" using False M by (simp add: spec_score_def)
  with f show ?thesis by simp
qed

lemma report_loop_ok:
  assumes "frequency_model ref_counts"
  shows "\<exists>rows. report_loop fmt ref_counts items = Inr rows \<and>
      map (\<lambda>r. (word r, frequency_in_target r)) rows = items \<and>
      (\<forall>r \<in> set rows.
         frequency_in_reference r = counter_get ref_counts (word r) 0 \<and>
         in_reference r = (0 < counter_get ref_counts (word r) 0) \<and>
         lexical_confidence r = fmt (spec_score ref_counts (word r)))"
proof (induction items)
  case Nil
  show ?case by simp
next
  case (Cons wf items)
  obtain w f where wf: "wf = (w, f)" by (cases wf)
  from Cons obtain rows where rows: "report_loop fmt ref_counts items = Inr rows"
    and proj: "map (\<lambda>r. (word r, frequency_in_target r)) rows = items"
    and flds: "\<forall>r \<in> set rows.
         frequency_in_reference r = counter_get ref_counts (word r) 0 \<and>
         in_reference r = (0 < counter_get ref_counts (word r) 0) \<and>
         lexical_confidence r = fmt (spec_score ref_counts (word r))"
    by blast
  show ?case
    by (simp add: wf rows proj flds score_refines_spec [OF assms] Let_def)
qed

lemma build_report_raises: "isl (build_report fmt ref_dir target_file)"
  by (cases target_file)
     (simp_all add: build_report_def build_reference_counts_lc_eq tokenize_lc_raises)

text \<open>
  Claim C6: the rows of the full confidence report, one for each distinct token of the
  target document, are in descending order of the frequency in the target document, rows
  of equal frequency in ascending lexicographic order of the token. This is the row
  preparation of \<^verbatim>\<open>build_report\<close> on any frequency model and the counter of any list
  of target tokens.
\<close>

theorem report_rows_descending:
  assumes "frequency_model ref_counts"
  shows "\<exists>rows. report_rows fmt ref_counts (counter_update [] target_tokens) = Inr rows \<and>
      word ` set rows = set target_tokens \<and>
      (\<forall>r \<in> set rows. frequency_in_target r = int (count_list target_tokens (word r))) \<and>
      sorted_wrt (\<lambda>r s. frequency_in_target s < frequency_in_target r \<or>
            (frequency_in_target r = frequency_in_target s \<and> word r < word s)) rows"
proof -
  let ?k = "\<lambda>wf::ustr \<times> int. (- snd wf, fst wf)"
  let ?items = "sort_key ?k (counter_update [] target_tokens)"
  let ?proj = "\<lambda>r::report_row. (word r, frequency_in_target r)"
  from report_loop_ok [OF assms, of fmt ?items]
  obtain rows where rows: "report_loop fmt ref_counts ?items = Inr rows"
    and proj: "map ?proj rows = ?items"
    by blast
  have "sorted_wrt (\<lambda>x y. ?k x < ?k y) ?items"
    by (rule sort_key_strict [where g = fst, OF Counter_distinct]) simp
  then have "sorted_wrt (\<lambda>x y. ?k x < ?k y) (map ?proj rows)"
    by (simp only: proj)
  then have "sorted_wrt (\<lambda>r s. ?k (?proj r) < ?k (?proj s)) rows"
    by (simp only: sorted_wrt_map)
  then have srt: "sorted_wrt (\<lambda>r s. frequency_in_target s < frequency_in_target r \<or>
            (frequency_in_target r = frequency_in_target s \<and> word r < word s)) rows"
    by (rule sorted_wrt_mono_rel [rotated]) auto
  have "set (map ?proj rows) = set (counter_update [] target_tokens)"
    by (simp only: proj set_sort)
  then have st: "?proj ` set rows = set (counter_update [] target_tokens)"
    by simp
  have "word ` set rows = fst ` ?proj ` set rows"
    by (simp add: image_image)
  then have wd: "word ` set rows = set target_tokens"
    by (simp only: st Counter_keys)
  have fr: "\<forall>r \<in> set rows. frequency_in_target r = int (count_list target_tokens (word r))"
  proof
    fix r assume "r \<in> set rows"
    then have "?proj r \<in> set (counter_update [] target_tokens)"
      using st by blast
    then show "frequency_in_target r = int (count_list target_tokens (word r))"
      by (rule Counter_items)
  qed
  from rows wd fr srt show ?thesis
    by (simp add: report_rows_def)
qed

theorem report_rows_descending_witness:
  "frequency_model model_die_minne \<and>
   report_rows (\<lambda>x. []) model_die_minne (counter_update [] tokens_die_minne_vrede) =
      Inr [\<lparr>word = [118, 114, 101, 100, 101], frequency_in_target = 2,
             frequency_in_reference = 0, in_reference = False, lexical_confidence = []\<rparr>,
           \<lparr>word = [100, 105, 101], frequency_in_target = 1,
             frequency_in_reference = 2, in_reference = True, lexical_confidence = []\<rparr>,
           \<lparr>word = [109, 105, 110, 110, 101], frequency_in_target = 1,
             frequency_in_reference = 1, in_reference = True, lexical_confidence = []\<rparr>] \<and>
   sorted_wrt (\<lambda>r s. frequency_in_target s < frequency_in_target r \<or>
            (frequency_in_target r = frequency_in_target s \<and> word r < word s))
      [\<lparr>word = [118, 114, 101, 100, 101], frequency_in_target = 2,
             frequency_in_reference = 0, in_reference = False, lexical_confidence = []\<rparr>,
           \<lparr>word = [100, 105, 101], frequency_in_target = 1,
             frequency_in_reference = 2, in_reference = True, lexical_confidence = []\<rparr>,
           \<lparr>word = [109, 105, 110, 110, 101], frequency_in_target = 1,
             frequency_in_reference = 1, in_reference = True, lexical_confidence = []\<rparr>]"
proof -
  have h: "frequency_model model_die_minne"
    by (simp add: frequency_model_def model_die_minne_def)
  have ev: "report_rows (\<lambda>x. []) model_die_minne (counter_update [] tokens_die_minne_vrede) =
      Inr [\<lparr>word = [118, 114, 101, 100, 101], frequency_in_target = 2,
             frequency_in_reference = 0, in_reference = False, lexical_confidence = []\<rparr>,
           \<lparr>word = [100, 105, 101], frequency_in_target = 1,
             frequency_in_reference = 2, in_reference = True, lexical_confidence = []\<rparr>,
           \<lparr>word = [109, 105, 110, 110, 101], frequency_in_target = 1,
             frequency_in_reference = 1, in_reference = True, lexical_confidence = []\<rparr>]"
    by (simp add: report_rows_def model_die_minne_def tokens_die_minne_vrede_def
        counter_update_def counter_get_def compute_lexical_confidence_def py_log_def py_div_def)
  from report_rows_descending [OF h, of "\<lambda>x. []" tokens_die_minne_vrede]
  have "sorted_wrt (\<lambda>r s. frequency_in_target s < frequency_in_target r \<or>
            (frequency_in_target r = frequency_in_target s \<and> word r < word s))
      [\<lparr>word = [118, 114, 101, 100, 101], frequency_in_target = 2,
             frequency_in_reference = 0, in_reference = False, lexical_confidence = []\<rparr>,
           \<lparr>word = [100, 105, 101], frequency_in_target = 1,
             frequency_in_reference = 2, in_reference = True, lexical_confidence = []\<rparr>,
           \<lparr>word = [109, 105, 110, 110, 101], frequency_in_target = 1,
             frequency_in_reference = 1, in_reference = True, lexical_confidence = []\<rparr>]"
    unfolding ev by simp
  with h ev show ?thesis by blast
qed

text \<open>
  Claim C10: in every row of the full confidence report the flag \<^verbatim>\<open>in_reference\<close> is
  true if and only if the lexical confidence computed for the token of the row, before it
  is formatted, is above 0. This is the row preparation of \<^verbatim>\<open>build_report\<close> on any
  frequency model and any target counter; the score is the real number.
\<close>

theorem in_reference_iff_positive_score:
  assumes "frequency_model ref_counts"
  shows "\<exists>rows. report_rows fmt ref_counts target_counts = Inr rows \<and>
      (\<forall>r \<in> set rows. \<exists>s. compute_lexical_confidence ref_counts (word r) = Inr s \<and>
         lexical_confidence r = fmt s \<and> (in_reference r \<longleftrightarrow> 0 < s))"
proof -
  from report_loop_ok [OF assms, of fmt "sort_key (\<lambda>wf. (- snd wf, fst wf)) target_counts"]
  obtain rows where rows: "report_rows fmt ref_counts target_counts = Inr rows"
    and flds: "\<forall>r \<in> set rows.
         frequency_in_reference r = counter_get ref_counts (word r) 0 \<and>
         in_reference r = (0 < counter_get ref_counts (word r) 0) \<and>
         lexical_confidence r = fmt (spec_score ref_counts (word r))"
    unfolding report_rows_def by blast
  have "\<forall>r \<in> set rows. \<exists>s. compute_lexical_confidence ref_counts (word r) = Inr s \<and>
         lexical_confidence r = fmt s \<and> (in_reference r \<longleftrightarrow> 0 < s)"
    using flds by (simp add: score_refines_spec [OF assms] spec_score_pos_iff [OF assms])
  with rows show ?thesis by blast
qed

theorem in_reference_iff_positive_score_witness:
  "frequency_model model_die_minne \<and>
   report_rows (\<lambda>x. []) model_die_minne (counter_update [] tokens_die_minne_vrede) =
      Inr [\<lparr>word = [118, 114, 101, 100, 101], frequency_in_target = 2,
             frequency_in_reference = 0, in_reference = False, lexical_confidence = []\<rparr>,
           \<lparr>word = [100, 105, 101], frequency_in_target = 1,
             frequency_in_reference = 2, in_reference = True, lexical_confidence = []\<rparr>,
           \<lparr>word = [109, 105, 110, 110, 101], frequency_in_target = 1,
             frequency_in_reference = 1, in_reference = True, lexical_confidence = []\<rparr>] \<and>
   (\<exists>s. compute_lexical_confidence model_die_minne [118, 114, 101, 100, 101] = Inr s \<and> \<not> 0 < s) \<and>
   (\<exists>s. compute_lexical_confidence model_die_minne [100, 105, 101] = Inr s \<and> 0 < s) \<and>
   (\<exists>s. compute_lexical_confidence model_die_minne [109, 105, 110, 110, 101] = Inr s \<and> 0 < s)"
proof -
  have h: "frequency_model model_die_minne"
    by (simp add: frequency_model_def model_die_minne_def)
  have ev: "report_rows (\<lambda>x. []) model_die_minne (counter_update [] tokens_die_minne_vrede) =
      Inr [\<lparr>word = [118, 114, 101, 100, 101], frequency_in_target = 2,
             frequency_in_reference = 0, in_reference = False, lexical_confidence = []\<rparr>,
           \<lparr>word = [100, 105, 101], frequency_in_target = 1,
             frequency_in_reference = 2, in_reference = True, lexical_confidence = []\<rparr>,
           \<lparr>word = [109, 105, 110, 110, 101], frequency_in_target = 1,
             frequency_in_reference = 1, in_reference = True, lexical_confidence = []\<rparr>]"
    by (simp add: report_rows_def model_die_minne_def tokens_die_minne_vrede_def
        counter_update_def counter_get_def compute_lexical_confidence_def py_log_def py_div_def)
  from in_reference_iff_positive_score
    [OF h, of "\<lambda>x. []" "counter_update [] tokens_die_minne_vrede"]
  have "(\<exists>s. compute_lexical_confidence model_die_minne [118, 114, 101, 100, 101] = Inr s \<and> \<not> 0 < s) \<and>
   (\<exists>s. compute_lexical_confidence model_die_minne [100, 105, 101] = Inr s \<and> 0 < s) \<and>
   (\<exists>s. compute_lexical_confidence model_die_minne [109, 105, 110, 110, 101] = Inr s \<and> 0 < s)"
    unfolding ev by simp
  with h ev show ?thesis by blast
qed

end
